theory Spec2Isabelle
  imports Main
begin

section \<open>Python values used by app.py\<close>

text \<open>
  A Python \<open>str\<close> is a sequence of Unicode code points, so a string is a list of
  code points here. The literals of app.py contain characters outside ASCII (the emoji of
  the headings and of the error tags); they are written by code point.
\<close>

type_synonym str = "nat list"

definition ascii :: "string \<Rightarrow> str" where
  "ascii s = map of_char s"

text \<open>
  \<open>str.isspace\<close> for one code point: the white space table of CPython
  (\<open>_PyUnicode_IsWhitespace\<close>).
\<close>

definition isspace :: "nat \<Rightarrow> bool" where
  "isspace c \<longleftrightarrow>
     (0x09 \<le> c \<and> c \<le> 0x0D) \<or> (0x1C \<le> c \<and> c \<le> 0x20) \<or> c = 0x85 \<or> c = 0xA0 \<or>
     c = 0x1680 \<or> (0x2000 \<le> c \<and> c \<le> 0x200A) \<or> c = 0x2028 \<or> c = 0x2029 \<or>
     c = 0x202F \<or> c = 0x205F \<or> c = 0x3000"

text \<open>\<open>s.strip()\<close>: white space removed at both ends.\<close>

definition strip :: "str \<Rightarrow> str" where
  "strip s = rev (dropWhile isspace (rev (dropWhile isspace s)))"

text \<open>\<open>s.split("\n")\<close>: the pieces between line feeds; the empty string gives one empty piece.\<close>

fun split_lines :: "str \<Rightarrow> str list" where
  "split_lines [] = [[]]"
| "split_lines (c # cs) =
     (if c = 0x0A then [] # split_lines cs
      else (case split_lines cs of
              [] \<Rightarrow> [[c]]
            | l # ls \<Rightarrow> (c # l) # ls))"

text \<open>\<open>s.startswith(p)\<close>.\<close>

definition startswith :: "str \<Rightarrow> str \<Rightarrow> bool" where
  "startswith s p \<longleftrightarrow> take (length p) s = p"

text \<open>
  The values of class \<open>Exception\<close> that the modelled code can meet, and \<open>str(e)\<close>.
  \<open>ProviderError\<close> stands for whatever an SDK call raises, with its message.
\<close>

datatype exn = NameError str | KeyError str | IndexError | ValueError str | ProviderError str

fun str_of_exn :: "exn \<Rightarrow> str" where
  "str_of_exn (NameError n) = ascii ''name '' @ [0x27] @ n @ [0x27] @ ascii '' is not defined''"
| "str_of_exn (KeyError k) = [0x27] @ k @ [0x27]"
| "str_of_exn IndexError = ascii ''list index out of range''"
| "str_of_exn (ValueError m) = m"
| "str_of_exn (ProviderError m) = m"

text \<open>A value that is a string or \<open>None\<close>, with its truth value and its f-string rendering.\<close>

datatype pyval = PyNone | PyStr str

fun truthy :: "pyval \<Rightarrow> bool" where
  "truthy PyNone = False"
| "truthy (PyStr s) = (s \<noteq> [])"

fun format :: "pyval \<Rightarrow> str" where
  "format PyNone = ascii ''None''"
| "format (PyStr s) = s"


section \<open>Session state\<close>

text \<open>A message is the dictionary \<open>{"role": r, "content": c}\<close>.\<close>

record message =
  role :: str
  content :: str

definition system_message :: message where
  "system_message =
     \<lparr>role = ascii ''system'', content = ascii ''You are a helpful research assistant.''\<rparr>"

definition user_message :: "str \<Rightarrow> message" where
  "user_message prompt = \<lparr>role = ascii ''user'', content = prompt\<rparr>"

definition assistant_message :: "str \<Rightarrow> message" where
  "assistant_message output = \<lparr>role = ascii ''assistant'', content = output\<rparr>"

text \<open>
  \<open>st.session_state\<close>, restricted to the three keys app.py uses. A key that is not
  set is \<open>None\<close>.
\<close>

record session_state =
  chat_history :: "message list option"
  qa_list :: "(str \<times> pyval) list option"
  summary :: "pyval option"

definition empty_session :: session_state where
  "empty_session = \<lparr>chat_history = None, qa_list = None, summary = None\<rparr>"

text \<open>Lines 105 to 109: the two keys are set only when they are missing.\<close>

definition init_session :: "session_state \<Rightarrow> session_state" where
  "init_session st =
     (let st1 = (case chat_history st of
                   None \<Rightarrow> st\<lparr>chat_history := Some [system_message]\<rparr>
                 | Some _ \<Rightarrow> st)
      in (case qa_list st1 of
            None \<Rightarrow> st1\<lparr>qa_list := Some []\<rparr>
          | Some _ \<Rightarrow> st1))"

text \<open>
  \<open>st.session_state["chat_history"].append({"role": "assistant", "content": output})\<close>
  (lines 49 and 60); the subscript raises \<open>KeyError\<close> when the key is missing.
\<close>

definition append_assistant :: "str \<Rightarrow> session_state \<Rightarrow> exn + session_state" where
  "append_assistant output st =
     (case chat_history st of
        None \<Rightarrow> Inl (KeyError (ascii ''chat_history''))
      | Some h \<Rightarrow> Inr (st\<lparr>chat_history := Some (h @ [assistant_message output])\<rparr>))"


section \<open>The two provider helpers\<close>

text \<open>
  The request of \<open>client.chat.completions.create\<close>, and the outside world of the
  helpers: the Groq client (bound only when its key is configured, lines 24 and 25), which
  answers a request with the contents of the returned choices or raises; and Gemini's
  \<open>GenerativeModel(model).generate_content(prompt).text\<close>, which yields text or raises.
  The content of a returned choice is taken to be text.
\<close>

record request =
  model :: str
  messages :: "message list"
  max_tokens :: nat

record providers =
  client :: "(request \<Rightarrow> exn + str list) option"
  generate_content :: "str \<Rightarrow> str \<Rightarrow> exn + str"

definition groq_tag :: str where
  "groq_tag = [0x26A0, 0xFE0F] @ ascii '' Groq Error: ''"

definition gemini_tag :: str where
  "gemini_tag = [0x26A0, 0xFE0F] @ ascii '' Gemini Error: ''"

text \<open>The request built at lines 44 to 46.\<close>

definition groq_request :: "str \<Rightarrow> str \<Rightarrow> message list \<Rightarrow> request" where
  "groq_request prompt model_choice h =
     \<lparr>model = model_choice, messages = h @ [user_message prompt], max_tokens = 800\<rparr>"

text \<open>The body of the \<open>try\<close> of \<open>ask_groq\<close> (lines 43 to 50).\<close>

definition ask_groq_try ::
  "providers \<Rightarrow> str \<Rightarrow> str \<Rightarrow> session_state \<Rightarrow> exn + (str \<times> session_state)" where
  "ask_groq_try env prompt model_choice st =
     (case client env of
        None \<Rightarrow> Inl (NameError (ascii ''client''))
      | Some create \<Rightarrow>
          (case chat_history st of
             None \<Rightarrow> Inl (KeyError (ascii ''chat_history''))
           | Some h \<Rightarrow>
               (case create (groq_request prompt model_choice h) of
                  Inl e \<Rightarrow> Inl e
                | Inr choices \<Rightarrow>
                    (case choices of
                       [] \<Rightarrow> Inl IndexError
                     | output # _ \<Rightarrow>
                         (case append_assistant output st of
                            Inl e \<Rightarrow> Inl e
                          | Inr st' \<Rightarrow> Inr (output, st'))))))"

text \<open>
  \<open>ask_groq\<close> (lines 41 to 52): the handler catches every \<open>Exception\<close> and returns
  the tagged message; the session state is then as the body left it, which is unchanged,
  since the append is the body's last effect.
\<close>

definition ask_groq :: "providers \<Rightarrow> str \<Rightarrow> str \<Rightarrow> session_state \<Rightarrow> str \<times> session_state" where
  "ask_groq env prompt model_choice st =
     (case ask_groq_try env prompt model_choice st of
        Inr r \<Rightarrow> r
      | Inl e \<Rightarrow> (groq_tag @ str_of_exn e, st))"

text \<open>The body of the \<open>try\<close> of \<open>ask_gemini\<close> (lines 57 to 61).\<close>

definition ask_gemini_try ::
  "providers \<Rightarrow> str \<Rightarrow> str \<Rightarrow> session_state \<Rightarrow> exn + (str \<times> session_state)" where
  "ask_gemini_try env prompt model_choice st =
     (case generate_content env model_choice prompt of
        Inl e \<Rightarrow> Inl e
      | Inr output \<Rightarrow>
          (case append_assistant output st of
             Inl e \<Rightarrow> Inl e
           | Inr st' \<Rightarrow> Inr (output, st')))"

definition ask_gemini :: "providers \<Rightarrow> str \<Rightarrow> str \<Rightarrow> session_state \<Rightarrow> str \<times> session_state" where
  "ask_gemini env prompt model_choice st =
     (case ask_gemini_try env prompt model_choice st of
        Inr r \<Rightarrow> r
      | Inl e \<Rightarrow> (gemini_tag @ str_of_exn e, st))"


section \<open>Dispatch on the selected model\<close>

text \<open>
  \<open>s.split(sep)\<close> for a non-empty separator (the empty one raises in Python; app.py
  splits on a literal only).
\<close>

function split_sep :: "str \<Rightarrow> str \<Rightarrow> str list" where
  "split_sep sep s =
     (if s = [] then [[]]
      else if sep \<noteq> [] \<and> take (length sep) s = sep
        then [] # split_sep sep (drop (length sep) s)
      else (case split_sep sep (tl s) of
              [] \<Rightarrow> [[hd s]]
            | l # ls \<Rightarrow> (hd s # l) # ls))"
  by pat_completeness auto
termination
  by (relation "measure (\<lambda>(sep, s). length s)") auto

declare split_sep.simps [simp del]

text \<open>\<open>xs[1]\<close>, which raises \<open>IndexError\<close> on fewer than two elements.\<close>

definition index1 :: "'a list \<Rightarrow> exn + 'a" where
  "index1 xs = (case xs of _ # x # _ \<Rightarrow> Inr x | _ \<Rightarrow> Inl IndexError)"

text \<open>The four entries of the model selector (lines 114 to 119).\<close>

definition model_options :: "str list" where
  "model_options =
     [ascii ''Groq - llama-3.3-70b-versatile'',
      ascii ''Groq - llama-3.1-8b-instant'',
      ascii ''Gemini - gemini-1.5-flash'',
      ascii ''Gemini - gemini-1.5-pro'']"

text \<open>
  \<open>run_model\<close> (lines 132 to 138). It has no handler of its own, and it returns
  \<open>None\<close> when the selection starts with neither provider name.
\<close>

definition run_model ::
  "providers \<Rightarrow> str \<Rightarrow> str \<Rightarrow> session_state \<Rightarrow> exn + (pyval \<times> session_state)" where
  "run_model env model_choice prompt st =
     (if startswith model_choice (ascii ''Groq'') then
        (case index1 (split_sep (ascii '' - '') model_choice) of
           Inl e \<Rightarrow> Inl e
         | Inr model_clean \<Rightarrow>
             (case ask_groq env prompt model_clean st of
                (output, st') \<Rightarrow> Inr (PyStr output, st')))
      else if startswith model_choice (ascii ''Gemini'') then
        (case index1 (split_sep (ascii '' - '') model_choice) of
           Inl e \<Rightarrow> Inl e
         | Inr model_clean \<Rightarrow>
             (case ask_gemini env prompt model_clean st of
                (output, st') \<Rightarrow> Inr (PyStr output, st')))
      else Inr (PyNone, st))"


section \<open>Text extraction\<close>

text \<open>
  \<open>PdfReader(f)\<close> gives the pages of an uploaded file or raises, and
  \<open>page.extract_text()\<close> gives text, \<open>None\<close>, or raises; both belong to PyPDF2 and
  are parameters. \<open>v or ""\<close> is \<open>or_empty\<close>.
\<close>

definition or_empty :: "pyval \<Rightarrow> str" where
  "or_empty v = (if truthy v then format v else [])"

text \<open>The inner loop (lines 36 and 37) and the outer loop (lines 34 to 37).\<close>

fun pages_loop :: "('p \<Rightarrow> exn + pyval) \<Rightarrow> 'p list \<Rightarrow> str \<Rightarrow> exn + str" where
  "pages_loop extract_text [] txt = Inr txt"
| "pages_loop extract_text (page # pages) txt =
     (case extract_text page of
        Inl e \<Rightarrow> Inl e
      | Inr v \<Rightarrow> pages_loop extract_text pages (txt @ or_empty v))"

fun files_loop ::
  "('f \<Rightarrow> exn + 'p list) \<Rightarrow> ('p \<Rightarrow> exn + pyval) \<Rightarrow> 'f list \<Rightarrow> str \<Rightarrow> exn + str" where
  "files_loop PdfReader extract_text [] txt = Inr txt"
| "files_loop PdfReader extract_text (uploaded_file # fs) txt =
     (case PdfReader uploaded_file of
        Inl e \<Rightarrow> Inl e
      | Inr pages \<Rightarrow>
          (case pages_loop extract_text pages txt of
             Inl e \<Rightarrow> Inl e
           | Inr txt' \<Rightarrow> files_loop PdfReader extract_text fs txt'))"

definition extract_text_from_pdfs ::
  "('f \<Rightarrow> exn + 'p list) \<Rightarrow> ('p \<Rightarrow> exn + pyval) \<Rightarrow> 'f list \<Rightarrow> exn + str" where
  "extract_text_from_pdfs PdfReader extract_text uploaded_files =
     (case files_loop PdfReader extract_text uploaded_files [] of
        Inl e \<Rightarrow> Inl e
      | Inr txt \<Rightarrow> Inr (strip txt))"

text \<open>
  The contract in the words of the specification: the text of one page (empty where the
  extraction yields none), the pages of one document, and the trimmed concatenation in
  upload order, then page order, with no separator.
\<close>

definition page_text :: "('p \<Rightarrow> exn + pyval) \<Rightarrow> 'p \<Rightarrow> str" where
  "page_text extract_text page =
     (case extract_text page of
        Inr (PyStr s) \<Rightarrow> s
      | _ \<Rightarrow> [])"

definition pages_of :: "('f \<Rightarrow> exn + 'p list) \<Rightarrow> 'f \<Rightarrow> 'p list" where
  "pages_of PdfReader f = (case PdfReader f of Inr pages \<Rightarrow> pages | Inl _ \<Rightarrow> [])"

definition ingest_spec ::
  "('f \<Rightarrow> exn + 'p list) \<Rightarrow> ('p \<Rightarrow> exn + pyval) \<Rightarrow> 'f list \<Rightarrow> str" where
  "ingest_spec PdfReader extract_text fs =
     strip (concat (map (\<lambda>f. concat (map (page_text extract_text) (pages_of PdfReader f))) fs))"

text \<open>Every file is read and every page is extracted without an exception.\<close>

definition readable ::
  "('f \<Rightarrow> exn + 'p list) \<Rightarrow> ('p \<Rightarrow> exn + pyval) \<Rightarrow> 'f list \<Rightarrow> bool" where
  "readable PdfReader extract_text fs \<longleftrightarrow>
     list_all (\<lambda>f. case PdfReader f of
                     Inl _ \<Rightarrow> False
                   | Inr pages \<Rightarrow> list_all (\<lambda>p. case extract_text p of Inl _ \<Rightarrow> False | Inr _ \<Rightarrow> True) pages) fs"


section \<open>Report export\<close>

text \<open>
  The flowables handed to the layout library. \<open>Paragraph\<close> and \<open>Spacer\<close> are
  reportlab's. The constructor call \<open>Paragraph(text, style)\<close> parses the markup of its
  text and raises when it is malformed, and \<open>doc.build\<close> lays the elements out or
  raises; both belong to the library and are parameters: \<open>markup_error\<close> gives the
  exception that the parser raises on a text, if any.
\<close>

datatype style = Heading2 | Normal

datatype flowable = Paragraph str style | Spacer nat nat

record 'b reportlab =
  markup_error :: "str \<Rightarrow> exn option"
  build :: "flowable list \<Rightarrow> exn + 'b"

definition make_paragraph :: "'b reportlab \<Rightarrow> str \<Rightarrow> style \<Rightarrow> exn + flowable" where
  "make_paragraph lib t sty =
     (case markup_error lib t of
        Some e \<Rightarrow> Inl e
      | None \<Rightarrow> Inr (Paragraph t sty))"

definition bold :: "str \<Rightarrow> str" where
  "bold title = ascii ''<b>'' @ title @ ascii ''</b>''"

text \<open>The loop of \<open>add_block\<close> (lines 75 to 77), then \<open>add_block\<close> itself.\<close>

fun add_lines :: "'b reportlab \<Rightarrow> str list \<Rightarrow> flowable list \<Rightarrow> exn + flowable list" where
  "add_lines lib [] elements = Inr elements"
| "add_lines lib (line # ls) elements =
     (if strip line \<noteq> [] then
        (case make_paragraph lib line Normal of
           Inl e \<Rightarrow> Inl e
         | Inr p \<Rightarrow> add_lines lib ls (elements @ [p]))
      else add_lines lib ls elements)"

definition add_block ::
  "'b reportlab \<Rightarrow> str \<Rightarrow> str \<Rightarrow> flowable list \<Rightarrow> exn + flowable list" where
  "add_block lib title contents elements =
     (case make_paragraph lib (bold title) Heading2 of
        Inl e \<Rightarrow> Inl e
      | Inr p \<Rightarrow>
          (let e1 = elements @ [p];
               e2 = e1 @ [Spacer 1 6]
           in (case add_lines lib (split_lines contents) e2 of
                 Inl e \<Rightarrow> Inl e
               | Inr e3 \<Rightarrow> Inr (e3 @ [Spacer 1 12]))))"

definition summary_title :: str where
  "summary_title = [0x1F4CC] @ ascii '' SUMMARY''"

definition question_title :: "str \<Rightarrow> str" where
  "question_title q = [0x2753] @ ascii '' Q: '' @ q"

definition answer_text :: "pyval \<Rightarrow> str" where
  "answer_text a = [0x1F916] @ ascii '' A: '' @ format a"

definition history_title :: str where
  "history_title = [0x1F4DD] @ ascii '' CONVERSATION HISTORY''"

definition full_text_title :: str where
  "full_text_title = [0x1F4D6] @ ascii '' FULL TEXT''"

text \<open>The loop over the pairs (lines 83 and 84).\<close>

fun add_qa ::
  "'b reportlab \<Rightarrow> (str \<times> pyval) list \<Rightarrow> flowable list \<Rightarrow> exn + flowable list" where
  "add_qa lib [] elements = Inr elements"
| "add_qa lib ((q, a) # qas) elements =
     (case add_block lib (question_title q) (answer_text a) elements of
        Inl e \<Rightarrow> Inl e
      | Inr elements' \<Rightarrow> add_qa lib qas elements')"

text \<open>The loop over the messages (lines 87 to 89).\<close>

definition speaker :: "message \<Rightarrow> str" where
  "speaker msg =
     (if role msg = ascii ''user'' then [0x1F9D1] @ ascii '' You''
      else [0x1F916] @ ascii '' Assistant'')"

fun hist_loop :: "message list \<Rightarrow> str \<Rightarrow> str" where
  "hist_loop [] hist_text = hist_text"
| "hist_loop (msg # ms) hist_text =
     hist_loop ms (hist_text @ speaker msg @ ascii '': '' @ content msg @ ascii ''<br/>'')"

text \<open>
  The four guarded steps of lines 80 to 92, each from the elements so far, and the value
  of \<open>elements\<close> when \<open>doc.build\<close> is called (line 94), unless a paragraph raised
  before.
\<close>

definition summary_step ::
  "'b reportlab \<Rightarrow> pyval \<Rightarrow> flowable list \<Rightarrow> exn + flowable list" where
  "summary_step lib summary_text elements =
     (if truthy summary_text then add_block lib summary_title (format summary_text) elements
      else Inr elements)"

definition qa_step ::
  "'b reportlab \<Rightarrow> (str \<times> pyval) list \<Rightarrow> flowable list \<Rightarrow> exn + flowable list" where
  "qa_step lib qas elements = (if qas \<noteq> [] then add_qa lib qas elements else Inr elements)"

definition history_step ::
  "'b reportlab \<Rightarrow> message list \<Rightarrow> flowable list \<Rightarrow> exn + flowable list" where
  "history_step lib history elements =
     (if history \<noteq> [] then add_block lib history_title (hist_loop history []) elements
      else Inr elements)"

definition full_text_step ::
  "'b reportlab \<Rightarrow> str \<Rightarrow> flowable list \<Rightarrow> exn + flowable list" where
  "full_text_step lib full_text elements =
     (if full_text \<noteq> [] then add_block lib full_text_title full_text elements
      else Inr elements)"

definition export_elements ::
  "'b reportlab \<Rightarrow> pyval \<Rightarrow> (str \<times> pyval) list \<Rightarrow> message list \<Rightarrow> str \<Rightarrow>
   exn + flowable list" where
  "export_elements lib summary_text qas history full_text =
     (case summary_step lib summary_text [] of
        Inl e \<Rightarrow> Inl e
      | Inr e1 \<Rightarrow>
          (case qa_step lib qas e1 of
             Inl e \<Rightarrow> Inl e
           | Inr e2 \<Rightarrow>
               (case history_step lib history e2 of
                  Inl e \<Rightarrow> Inl e
                | Inr e3 \<Rightarrow> full_text_step lib full_text e3)))"

text \<open>\<open>export_to_pdf\<close> (lines 66 to 96): the buffer is what the library builds.\<close>

definition export_to_pdf ::
  "'b reportlab \<Rightarrow> pyval \<Rightarrow> (str \<times> pyval) list \<Rightarrow> message list \<Rightarrow> str \<Rightarrow> exn + 'b"
  where
  "export_to_pdf lib summary_text qas history full_text =
     (case export_elements lib summary_text qas history full_text of
        Inl e \<Rightarrow> Inl e
      | Inr elements \<Rightarrow> build lib elements)"



section \<open>One run of the script\<close>

text \<open>
  Streamlit runs app.py from the top on every interaction, with the session state kept
  between runs and at most one button reported as clicked.
\<close>

datatype action = NoAction | GenerateSummary | GetAnswer str | DownloadPdf

definition summary_prompt :: "str \<Rightarrow> str" where
  "summary_prompt pdf_text =
     ascii ''Summarize the following text in bullet points:'' @ [0x0A, 0x0A] @ pdf_text"

definition answer_prompt :: "str \<Rightarrow> str \<Rightarrow> str" where
  "answer_prompt pdf_text query =
     ascii ''Answer the following question based on the text:'' @ [0x0A, 0x0A] @
     ascii ''Text: '' @ pdf_text @ [0x0A, 0x0A] @ ascii ''Question: '' @ query"

text \<open>The handler of the summary button (lines 142 to 145).\<close>

definition generate_summary ::
  "providers \<Rightarrow> str \<Rightarrow> str \<Rightarrow> session_state \<Rightarrow> session_state \<times> exn option" where
  "generate_summary env model_choice pdf_text st =
     (case run_model env model_choice (summary_prompt pdf_text) st of
        Inl e \<Rightarrow> (st, Some e)
      | Inr (s, st') \<Rightarrow> (st'\<lparr>summary := Some s\<rparr>, None))"

text \<open>The handler of the answer button (lines 153 to 156).\<close>

definition get_answer ::
  "providers \<Rightarrow> str \<Rightarrow> str \<Rightarrow> str \<Rightarrow> session_state \<Rightarrow> session_state \<times> exn option" where
  "get_answer env model_choice pdf_text query st =
     (case run_model env model_choice (answer_prompt pdf_text query) st of
        Inl e \<Rightarrow> (st, Some e)
      | Inr (answer, st') \<Rightarrow>
          (case qa_list st' of
             None \<Rightarrow> (st', Some (KeyError (ascii ''qa_list'')))
           | Some qas \<Rightarrow> (st'\<lparr>qa_list := Some (qas @ [(query, answer)])\<rparr>, None)))"

text \<open>The handler of the report button (lines 173 to 177); it leaves the state as it is.\<close>

definition download_pdf ::
  "'b reportlab \<Rightarrow> str \<Rightarrow> session_state \<Rightarrow> session_state \<times> exn option" where
  "download_pdf lib pdf_text st =
     (let summary_text = (case summary st of None \<Rightarrow> PyStr [] | Some v \<Rightarrow> v);
          qas = (case qa_list st of None \<Rightarrow> [] | Some l \<Rightarrow> l)
      in (case chat_history st of
            None \<Rightarrow> (st, Some (KeyError (ascii ''chat_history'')))
          | Some history \<Rightarrow>
              (case export_to_pdf lib summary_text qas history pdf_text of
                 Inl e \<Rightarrow> (st, Some e)
               | Inr _ \<Rightarrow> (st, None))))"

text \<open>
  One run (lines 105 to 181) with the selected model, the uploaded files and the clicked
  button: the state it leaves, and the exception that ended it, if any.
\<close>

definition script ::
  "providers \<Rightarrow> ('f \<Rightarrow> exn + 'p list) \<Rightarrow> ('p \<Rightarrow> exn + pyval) \<Rightarrow> 'b reportlab \<Rightarrow>
   str \<times> 'f list \<times> action \<Rightarrow> session_state \<Rightarrow> session_state \<times> exn option" where
  "script env PdfReader extract_text lib run st0 =
     (case run of (model_choice, uploaded_files, act) \<Rightarrow>
        (let st = init_session st0
         in if uploaded_files = [] then (st, None)
            else (case extract_text_from_pdfs PdfReader extract_text uploaded_files of
                    Inl e \<Rightarrow> (st, Some e)
                  | Inr pdf_text \<Rightarrow>
                      (case act of
                         NoAction \<Rightarrow> (st, None)
                       | GenerateSummary \<Rightarrow> generate_summary env model_choice pdf_text st
                       | GetAnswer query \<Rightarrow> get_answer env model_choice pdf_text query st
                       | DownloadPdf \<Rightarrow> download_pdf lib pdf_text st))))"

text \<open>A session: the runs in order, each from the state the one before left.\<close>

fun session ::
  "providers \<Rightarrow> ('f \<Rightarrow> exn + 'p list) \<Rightarrow> ('p \<Rightarrow> exn + pyval) \<Rightarrow> 'b reportlab \<Rightarrow>
   (str \<times> 'f list \<times> action) list \<Rightarrow> session_state \<Rightarrow> session_state" where
  "session env PdfReader extract_text lib [] st = st"
| "session env PdfReader extract_text lib (run # runs) st =
     session env PdfReader extract_text lib runs
       (fst (script env PdfReader extract_text lib run st))"

text \<open>
  An ask interaction is completed by a run when the answer button was clicked, files were
  uploaded, and the run came to its end without an exception. \<open>asks_completed\<close> counts
  them along a session.
\<close>

fun is_ask :: "action \<Rightarrow> bool" where
  "is_ask (GetAnswer _) = True"
| "is_ask _ = False"

definition ask_completed ::
  "providers \<Rightarrow> ('f \<Rightarrow> exn + 'p list) \<Rightarrow> ('p \<Rightarrow> exn + pyval) \<Rightarrow> 'b reportlab \<Rightarrow>
   str \<times> 'f list \<times> action \<Rightarrow> session_state \<Rightarrow> bool" where
  "ask_completed env PdfReader extract_text lib run st \<longleftrightarrow>
     is_ask (snd (snd run)) \<and> fst (snd run) \<noteq> [] \<and>
     snd (script env PdfReader extract_text lib run st) = None"

fun asks_completed ::
  "providers \<Rightarrow> ('f \<Rightarrow> exn + 'p list) \<Rightarrow> ('p \<Rightarrow> exn + pyval) \<Rightarrow> 'b reportlab \<Rightarrow>
   (str \<times> 'f list \<times> action) list \<Rightarrow> session_state \<Rightarrow> nat" where
  "asks_completed env PdfReader extract_text lib [] st = 0"
| "asks_completed env PdfReader extract_text lib (run # runs) st =
     (if ask_completed env PdfReader extract_text lib run st then 1 else 0) +
     asks_completed env PdfReader extract_text lib runs
       (fst (script env PdfReader extract_text lib run st))"

text \<open>
  The length of the pair sequence, and the two sequences themselves; a sequence not yet
  created has no entries.
\<close>

definition qa_len :: "session_state \<Rightarrow> nat" where
  "qa_len st = (case qa_list st of None \<Rightarrow> 0 | Some qas \<Rightarrow> length qas)"

definition history_of :: "session_state \<Rightarrow> message list" where
  "history_of st = (case chat_history st of None \<Rightarrow> [] | Some h \<Rightarrow> h)"

definition qas_of :: "session_state \<Rightarrow> (str \<times> pyval) list" where
  "qas_of st = (case qa_list st of None \<Rightarrow> [] | Some qas \<Rightarrow> qas)"


section \<open>Stubs for concrete runs\<close>

text \<open>
  A provider pair that answers, one that fails, a two-file upload, and a layout library that
  accepts every markup.
\<close>

definition answering :: providers where
  "answering =
     \<lparr>client = Some (\<lambda>r. Inr [ascii ''A brief greeting.'']),
      generate_content = (\<lambda>m p. Inr (ascii ''A brief greeting.''))\<rparr>"

definition failing :: providers where
  "failing =
     \<lparr>client = Some (\<lambda>r. Inl (ProviderError (ascii ''timeout''))),
      generate_content = (\<lambda>m p. Inl (ProviderError (ascii ''timeout'')))\<rparr>"

definition started :: session_state where
  "started = init_session empty_session"

definition two_files :: "nat \<Rightarrow> exn + pyval list" where
  "two_files f =
     (if f = 0 then Inr [PyStr (ascii '' Hello''), PyNone, PyStr (ascii '' '')]
      else if f = 1 then Inr [PyStr (ascii ''World. '')]
      else Inl (ValueError (ascii ''not a PDF'')))"

definition page_value :: "pyval \<Rightarrow> exn + pyval" where
  "page_value v = Inr v"

definition lenient :: "unit reportlab" where
  "lenient = \<lparr>markup_error = (\<lambda>t. None), build = (\<lambda>elements. Inr ())\<rparr>"



text \<open>A second library that agrees with \<open>two_files\<close> on the files 0 and 1 only.\<close>

definition other_files :: "nat \<Rightarrow> exn + pyval list" where
  "other_files f =
     (if f = 0 then Inr [PyStr (ascii '' Hello''), PyNone, PyStr (ascii '' '')]
      else if f = 1 then Inr [PyStr (ascii ''World. '')]
      else Inr [PyStr (ascii ''more'')])"


section \<open>Properties of the provider helpers\<close>

lemma history_of_simps:
  "history_of (st\<lparr>chat_history := Some h\<rparr>) = h"
  "history_of (st\<lparr>qa_list := q\<rparr>) = history_of st"
  "history_of (st\<lparr>summary := s\<rparr>) = history_of st"
  by (simp_all add: history_of_def)

text \<open>
  C5. When the Groq call succeeds, the request it received holds the selected model, the
  whole stored message sequence followed by the prompt as a user message, and a limit of
  800 generated tokens; the content of the first choice is returned, and the stored
  sequence gains it as one assistant message at the end.
\<close>

theorem ask_groq_success:
  assumes "client env = Some create"
    and "chat_history st = Some h"
    and "create \<lparr>model = model_choice,
                 messages = h @ [\<lparr>role = ascii ''user'', content = prompt\<rparr>],
                 max_tokens = 800\<rparr> = Inr (output # others)"
  shows "ask_groq env prompt model_choice st =
           (output,
            st\<lparr>chat_history := Some (h @ [\<lparr>role = ascii ''assistant'', content = output\<rparr>])\<rparr>)"
  using assms
  by (simp add: ask_groq_def ask_groq_try_def groq_request_def user_message_def
      append_assistant_def assistant_message_def)

theorem ask_groq_success_witness:
  "client answering = Some (\<lambda>r. Inr [ascii ''A brief greeting.'']) \<and>
   chat_history started = Some [system_message] \<and>
   ask_groq answering (ascii ''Summarize: Hello World.'') (ascii ''modelX'') started =
     (ascii ''A brief greeting.'',
      started\<lparr>chat_history :=
        Some ([system_message] @
              [\<lparr>role = ascii ''assistant'', content = ascii ''A brief greeting.''\<rparr>])\<rparr>)"
  using ask_groq_success [of answering "\<lambda>r. Inr [ascii ''A brief greeting.'']" started
      "[system_message]" "ascii ''modelX''" "ascii ''Summarize: Hello World.''"
      "ascii ''A brief greeting.''" "[]"]
  by (simp add: answering_def started_def init_session_def empty_session_def)

text \<open>
  C6. When the Gemini call succeeds, the call received the selected model and the prompt
  only (the stored message sequence is no argument of it); the text is returned, and the
  stored sequence gains it as one assistant message at the end.
\<close>

theorem ask_gemini_success:
  assumes "generate_content env model_choice prompt = Inr output"
    and "chat_history st = Some h"
  shows "ask_gemini env prompt model_choice st =
           (output,
            st\<lparr>chat_history := Some (h @ [\<lparr>role = ascii ''assistant'', content = output\<rparr>])\<rparr>)"
  using assms
  by (simp add: ask_gemini_def ask_gemini_try_def append_assistant_def assistant_message_def)

theorem ask_gemini_success_witness:
  "generate_content answering (ascii ''gemini-1.5-flash'') (ascii ''Summarize: Hello World.'') =
     Inr (ascii ''A brief greeting.'') \<and>
   chat_history started = Some [system_message] \<and>
   ask_gemini answering (ascii ''Summarize: Hello World.'') (ascii ''gemini-1.5-flash'') started =
     (ascii ''A brief greeting.'',
      started\<lparr>chat_history :=
        Some ([system_message] @
              [\<lparr>role = ascii ''assistant'', content = ascii ''A brief greeting.''\<rparr>])\<rparr>)"
  using ask_gemini_success [of answering "ascii ''gemini-1.5-flash''"
      "ascii ''Summarize: Hello World.''" "ascii ''A brief greeting.''" started "[system_message]"]
  by (simp add: answering_def started_def init_session_def empty_session_def)

lemma failing_groq_try:
  "ask_groq_try failing prompt model_choice started = Inl (ProviderError (ascii ''timeout''))"
  by (simp add: ask_groq_try_def failing_def started_def init_session_def empty_session_def)

lemma failing_gemini_try:
  "ask_gemini_try failing prompt model_choice started = Inl (ProviderError (ascii ''timeout''))"
  by (simp add: ask_gemini_try_def failing_def)

lemma started_history: "chat_history started = Some [system_message]"
  by (simp add: started_def init_session_def empty_session_def)

text \<open>
  C3. Both helpers return a string in every case; the result type of \<open>ask_groq\<close> and
  \<open>ask_gemini\<close> has no exception in it, because the handler covers every exception of
  the body. When the provider call raises, the result is the helper's own tag followed by
  the exception's message, and the session state is as before. Whatever the providers and
  the state are, the returned string either begins with the helper's tag or is the text
  that the provider returned. A string that begins with one tag does not begin with the
  other, so the tag tells which backend failed.
\<close>

theorem gateway_never_raises:
  "(\<forall>create h e. client env = Some create \<longrightarrow> chat_history st = Some h \<longrightarrow>
      create (groq_request prompt model_choice h) = Inl e \<longrightarrow>
      ask_groq env prompt model_choice st = (groq_tag @ str_of_exn e, st)) \<and>
   (\<forall>e. generate_content env model_choice prompt = Inl e \<longrightarrow>
      ask_gemini env prompt model_choice st = (gemini_tag @ str_of_exn e, st)) \<and>
   (startswith (fst (ask_groq env prompt model_choice st)) groq_tag \<or>
    (\<exists>create h output others. client env = Some create \<and> chat_history st = Some h \<and>
       create (groq_request prompt model_choice h) = Inr (output # others) \<and>
       fst (ask_groq env prompt model_choice st) = output)) \<and>
   (startswith (fst (ask_gemini env prompt model_choice st)) gemini_tag \<or>
    (\<exists>output. generate_content env model_choice prompt = Inr output \<and>
       fst (ask_gemini env prompt model_choice st) = output)) \<and>
   \<not> startswith (groq_tag @ msg) gemini_tag \<and>
   \<not> startswith (gemini_tag @ msg) groq_tag"
proof (intro conjI allI impI)
  fix create h e
  assume "client env = Some create" and "chat_history st = Some h"
    and "create (groq_request prompt model_choice h) = Inl e"
  then show "ask_groq env prompt model_choice st = (groq_tag @ str_of_exn e, st)"
    by (simp add: ask_groq_def ask_groq_try_def)
next
  fix e
  assume "generate_content env model_choice prompt = Inl e"
  then show "ask_gemini env prompt model_choice st = (gemini_tag @ str_of_exn e, st)"
    by (simp add: ask_gemini_def ask_gemini_try_def)
next
  show "startswith (fst (ask_groq env prompt model_choice st)) groq_tag \<or>
    (\<exists>create h output others. client env = Some create \<and> chat_history st = Some h \<and>
       create (groq_request prompt model_choice h) = Inr (output # others) \<and>
       fst (ask_groq env prompt model_choice st) = output)"
    by (auto simp: ask_groq_def ask_groq_try_def append_assistant_def startswith_def
        split: option.splits sum.splits list.splits)
next
  show "startswith (fst (ask_gemini env prompt model_choice st)) gemini_tag \<or>
    (\<exists>output. generate_content env model_choice prompt = Inr output \<and>
       fst (ask_gemini env prompt model_choice st) = output)"
    by (auto simp: ask_gemini_def ask_gemini_try_def append_assistant_def startswith_def
        split: option.splits sum.splits)
next
  show "\<not> startswith (groq_tag @ msg) gemini_tag"
    by (simp add: startswith_def groq_tag_def gemini_tag_def ascii_def)
next
  show "\<not> startswith (gemini_tag @ msg) groq_tag"
    by (simp add: startswith_def groq_tag_def gemini_tag_def ascii_def)
qed

theorem gateway_never_raises_witness:
  "client failing = Some (\<lambda>r. Inl (ProviderError (ascii ''timeout''))) \<and>
   chat_history started = Some [system_message] \<and>
   ask_groq failing (ascii ''Hi'') (ascii ''modelX'') started =
     (groq_tag @ ascii ''timeout'', started) \<and>
   generate_content failing (ascii ''modelX'') (ascii ''Hi'') =
     Inl (ProviderError (ascii ''timeout'')) \<and>
   ask_gemini failing (ascii ''Hi'') (ascii ''modelX'') started =
     (gemini_tag @ ascii ''timeout'', started)"
proof -
  have c: "client failing = Some (\<lambda>r. Inl (ProviderError (ascii ''timeout'')))"
    by (simp add: failing_def)
  have g: "generate_content failing (ascii ''modelX'') (ascii ''Hi'') =
      Inl (ProviderError (ascii ''timeout''))"
    by (simp add: failing_def)
  from gateway_never_raises [where env = failing and st = started
      and prompt = "ascii ''Hi''" and model_choice = "ascii ''modelX''" and msg = "[]"]
    c g started_history
  show ?thesis by simp
qed

text \<open>
  C1, as stated, fails: with a provider that raises, both helpers return their error
  string and leave the stored message sequence as it was, the single system message of a
  fresh session; its length is not one more than before.
\<close>

theorem failed_call_appends_nothing:
  "fst (ask_groq failing (ascii ''Hi'') (ascii ''modelX'') started) =
     groq_tag @ ascii ''timeout'' \<and>
   history_of started = [system_message] \<and>
   history_of (snd (ask_groq failing (ascii ''Hi'') (ascii ''modelX'') started)) =
     [system_message] \<and>
   length (history_of (snd (ask_groq failing (ascii ''Hi'') (ascii ''modelX'') started))) \<noteq>
     length (history_of started) + 1 \<and>
   fst (ask_gemini failing (ascii ''Hi'') (ascii ''modelX'') started) =
     gemini_tag @ ascii ''timeout'' \<and>
   history_of (snd (ask_gemini failing (ascii ''Hi'') (ascii ''modelX'') started)) =
     [system_message] \<and>
   length (history_of (snd (ask_gemini failing (ascii ''Hi'') (ascii ''modelX'') started))) \<noteq>
     length (history_of started) + 1"
proof -
  have g: "ask_groq failing (ascii ''Hi'') (ascii ''modelX'') started =
      (groq_tag @ ascii ''timeout'', started)"
    by (simp add: ask_groq_def failing_groq_try)
  have m: "ask_gemini failing (ascii ''Hi'') (ascii ''modelX'') started =
      (gemini_tag @ ascii ''timeout'', started)"
    by (simp add: ask_gemini_def failing_gemini_try)
  have s: "history_of started = [system_message]"
    by (simp add: history_of_def started_history)
  show ?thesis by (simp add: g m s)
qed

text \<open>
  C1, amended. With the message sequence in place, a call whose provider call succeeds
  returns the provider's text and appends exactly one assistant message holding it; a
  call whose provider call raises (or, for Groq, returns no choice) returns the tagged
  error string and leaves the session state, the message sequence included, unchanged.
\<close>

theorem gateway_appends_on_success_only:
  assumes "chat_history st = Some h"
  shows "(\<forall>create. client env = Some create \<longrightarrow>
            ask_groq env prompt model_choice st =
              (case create (groq_request prompt model_choice h) of
                 Inr (output # _) \<Rightarrow>
                   (output, st\<lparr>chat_history := Some (h @ [assistant_message output])\<rparr>)
               | Inr [] \<Rightarrow> (groq_tag @ str_of_exn IndexError, st)
               | Inl e \<Rightarrow> (groq_tag @ str_of_exn e, st))) \<and>
         ask_gemini env prompt model_choice st =
           (case generate_content env model_choice prompt of
              Inr output \<Rightarrow> (output, st\<lparr>chat_history := Some (h @ [assistant_message output])\<rparr>)
            | Inl e \<Rightarrow> (gemini_tag @ str_of_exn e, st))"
  using assms
  by (simp add: ask_groq_def ask_groq_try_def ask_gemini_def ask_gemini_try_def
      append_assistant_def split: sum.splits list.splits)

theorem gateway_appends_on_success_only_witness:
  "chat_history started = Some [system_message] \<and>
   client failing = Some (\<lambda>r. Inl (ProviderError (ascii ''timeout''))) \<and>
   ask_groq failing (ascii ''Hi'') (ascii ''modelX'') started =
     (groq_tag @ ascii ''timeout'', started) \<and>
   ask_gemini answering (ascii ''Hi'') (ascii ''modelX'') started =
     (ascii ''A brief greeting.'',
      started\<lparr>chat_history :=
        Some ([system_message] @ [assistant_message (ascii ''A brief greeting.'')])\<rparr>)"
proof -
  have h: "chat_history started = Some [system_message]"
    by (rule started_history)
  from gateway_appends_on_success_only [OF h, of failing "ascii ''Hi''" "ascii ''modelX''"]
    gateway_appends_on_success_only [OF h, of answering "ascii ''Hi''" "ascii ''modelX''"] h
  show ?thesis by (simp add: failing_def answering_def)
qed


section \<open>Properties of the text extraction\<close>

lemma pages_loop_concat:
  "list_all (\<lambda>p. case extract_text p of Inl _ \<Rightarrow> False | Inr _ \<Rightarrow> True) pages \<Longrightarrow>
   pages_loop extract_text pages acc = Inr (acc @ concat (map (page_text extract_text) pages))"
proof (induction pages arbitrary: acc)
  case Nil
  show ?case by simp
next
  case (Cons p ps)
  from Cons.prems obtain v where v: "extract_text p = Inr v"
    by (cases "extract_text p") simp_all
  from Cons.prems have "list_all (\<lambda>p. case extract_text p of Inl _ \<Rightarrow> False | Inr _ \<Rightarrow> True) ps"
    by simp
  then have "pages_loop extract_text ps (acc @ or_empty v) =
      Inr ((acc @ or_empty v) @ concat (map (page_text extract_text) ps))"
    by (rule Cons.IH)
  moreover have "page_text extract_text p = or_empty v"
    by (cases v) (simp_all add: page_text_def v or_empty_def)
  ultimately show ?case by (simp add: v)
qed

lemma files_loop_concat:
  "readable PdfReader extract_text fs \<Longrightarrow>
   files_loop PdfReader extract_text fs acc =
     Inr (acc @ concat (map (\<lambda>f. concat (map (page_text extract_text) (pages_of PdfReader f))) fs))"
proof (induction fs arbitrary: acc)
  case Nil
  show ?case by simp
next
  case (Cons f fs)
  from Cons.prems obtain pages where r: "PdfReader f = Inr pages"
    and p: "list_all (\<lambda>p. case extract_text p of Inl _ \<Rightarrow> False | Inr _ \<Rightarrow> True) pages"
    by (cases "PdfReader f") (simp_all add: readable_def)
  from Cons.prems have "readable PdfReader extract_text fs"
    by (simp add: readable_def)
  note ih = Cons.IH [OF this]
  show ?case
    by (simp add: r pages_loop_concat [OF p] ih pages_of_def)
qed

lemma extract_text_readable:
  "readable PdfReader extract_text uploaded_files \<Longrightarrow>
   extract_text_from_pdfs PdfReader extract_text uploaded_files =
     Inr (ingest_spec PdfReader extract_text uploaded_files)"
  by (simp add: extract_text_from_pdfs_def ingest_spec_def files_loop_concat)

lemma strip_example: "strip (ascii '' Hello World. '') = ascii ''Hello World.''"
  by (simp add: strip_def ascii_def isspace_def)

lemma two_files_readable: "readable two_files page_value [0, 1]"
  by (simp add: readable_def two_files_def page_value_def)

lemma two_files_text:
  "concat (map (\<lambda>f. concat (map (page_text page_value) (pages_of two_files f))) [0, 1]) =
     ascii '' Hello World. ''"
  by (simp add: pages_of_def page_text_def two_files_def page_value_def ascii_def)

lemma pages_loop_raises:
  "\<not> list_all (\<lambda>p. case extract_text p of Inl _ \<Rightarrow> False | Inr _ \<Rightarrow> True) pages \<Longrightarrow>
   \<exists>e. pages_loop extract_text pages acc = Inl e"
proof (induction pages arbitrary: acc)
  case Nil
  then show ?case by simp
next
  case (Cons p ps)
  show ?case
  proof (cases "extract_text p")
    case (Inl e)
    then show ?thesis by simp
  next
    case (Inr v)
    with Cons.prems
    have "\<not> list_all (\<lambda>p. case extract_text p of Inl _ \<Rightarrow> False | Inr _ \<Rightarrow> True) ps"
      by simp
    from Cons.IH [OF this] Inr show ?thesis by simp
  qed
qed

lemma files_loop_raises:
  "\<not> readable PdfReader extract_text fs \<Longrightarrow>
   \<exists>e. files_loop PdfReader extract_text fs acc = Inl e"
proof (induction fs arbitrary: acc)
  case Nil
  then show ?case by (simp add: readable_def)
next
  case (Cons f fs)
  show ?case
  proof (cases "PdfReader f")
    case (Inl e)
    then show ?thesis by simp
  next
    case (Inr pages)
    show ?thesis
    proof (cases "list_all (\<lambda>p. case extract_text p of Inl _ \<Rightarrow> False | Inr _ \<Rightarrow> True) pages")
      case False
      from pages_loop_raises [OF this, of acc] obtain e
        where "pages_loop extract_text pages acc = Inl e"
        by blast
      with Inr show ?thesis by simp
    next
      case True
      with Cons.prems Inr have "\<not> readable PdfReader extract_text fs"
        by (simp add: readable_def)
      from Cons.IH [OF this] pages_loop_concat [OF True] Inr show ?thesis
        by simp
    qed
  qed
qed

lemma pages_loop_agree:
  "\<forall>p\<in>set pages. extract_text' p = extract_text p \<Longrightarrow>
   pages_loop extract_text' pages acc = pages_loop extract_text pages acc"
  by (induction pages arbitrary: acc) (simp_all split: sum.splits)

lemma files_loop_agree:
  "\<forall>f\<in>set fs. PdfReader' f = PdfReader f \<and>
      (\<forall>p\<in>set (pages_of PdfReader f). extract_text' p = extract_text p) \<Longrightarrow>
   files_loop PdfReader' extract_text' fs acc = files_loop PdfReader extract_text fs acc"
proof (induction fs arbitrary: acc)
  case Nil
  show ?case by simp
next
  case (Cons f fs)
  from Cons.prems have r: "PdfReader' f = PdfReader f"
    and p: "\<forall>p\<in>set (pages_of PdfReader f). extract_text' p = extract_text p"
    and rest: "\<forall>f\<in>set fs. PdfReader' f = PdfReader f \<and>
      (\<forall>p\<in>set (pages_of PdfReader f). extract_text' p = extract_text p)"
    by simp_all
  show ?case
  proof (cases "PdfReader f")
    case (Inl e)
    with r show ?thesis by simp
  next
    case (Inr pages)
    with p have "\<forall>p\<in>set pages. extract_text' p = extract_text p"
      by (simp add: pages_of_def)
    from pages_loop_agree [OF this] r Inr Cons.IH [OF rest] show ?thesis
      by (simp split: sum.splits)
  qed
qed

lemma other_files_agree:
  "\<forall>f\<in>set [0, 1]. other_files f = two_files f \<and>
      (\<forall>p\<in>set (pages_of two_files f). page_value p = page_value p)"
  by (simp add: other_files_def two_files_def)

lemma two_files_unreadable: "\<not> readable two_files page_value [0, 1, 2]"
  by (simp add: readable_def two_files_def page_value_def)

text \<open>
  C4, as stated, fails: \<open>extract_text_from_pdfs\<close> has no handler, so for an upload whose
  third file the PDF library does not read, the call raises, where the concatenation of
  the claim is the text of the two readable files.
\<close>

theorem unreadable_file_raises:
  "extract_text_from_pdfs two_files page_value [0, 1, 2] = Inl (ValueError (ascii ''not a PDF'')) \<and>
   ingest_spec two_files page_value [0, 1, 2] = ascii ''Hello World.''"
proof -
  have "files_loop two_files page_value [0, 1, 2] [] = Inl (ValueError (ascii ''not a PDF''))"
    by (simp add: two_files_def page_value_def)
  then have a: "extract_text_from_pdfs two_files page_value [0, 1, 2] =
      Inl (ValueError (ascii ''not a PDF''))"
    by (simp add: extract_text_from_pdfs_def)
  have "concat (map (\<lambda>f. concat (map (page_text page_value) (pages_of two_files f))) [0, 1, 2]) =
     ascii '' Hello World. ''"
    by (simp add: pages_of_def page_text_def two_files_def page_value_def ascii_def)
  then have b: "ingest_spec two_files page_value [0, 1, 2] = ascii ''Hello World.''"
    by (simp only: ingest_spec_def strip_example)
  from a b show ?thesis by (rule conjI)
qed

text \<open>
  C4, amended. For uploaded files that the PDF library reads without raising,
  \<open>extract_text_from_pdfs\<close> returns the texts of the pages, file after file in upload
  order and page after page within a file, joined with no separator, a page without text
  counting as the empty string, and the whole trimmed of white space at both ends. When
  the library raises on a file or on a page, the call raises. The result is determined by
  what the library gives for the uploaded files and their pages: two libraries that agree
  there give the same result.
\<close>

theorem extract_text_from_pdfs_concat:
  "(readable PdfReader extract_text uploaded_files \<longrightarrow>
      extract_text_from_pdfs PdfReader extract_text uploaded_files =
        Inr (ingest_spec PdfReader extract_text uploaded_files)) \<and>
   (\<not> readable PdfReader extract_text uploaded_files \<longrightarrow>
      (\<exists>e. extract_text_from_pdfs PdfReader extract_text uploaded_files = Inl e)) \<and>
   ((\<forall>f\<in>set uploaded_files. PdfReader' f = PdfReader f \<and>
        (\<forall>p\<in>set (pages_of PdfReader f). extract_text' p = extract_text p)) \<longrightarrow>
      extract_text_from_pdfs PdfReader' extract_text' uploaded_files =
        extract_text_from_pdfs PdfReader extract_text uploaded_files)"
proof (intro conjI impI)
  assume "readable PdfReader extract_text uploaded_files"
  then show "extract_text_from_pdfs PdfReader extract_text uploaded_files =
      Inr (ingest_spec PdfReader extract_text uploaded_files)"
    by (rule extract_text_readable)
next
  assume "\<not> readable PdfReader extract_text uploaded_files"
  from files_loop_raises [OF this, of "[]"]
  show "\<exists>e. extract_text_from_pdfs PdfReader extract_text uploaded_files = Inl e"
    by (auto simp: extract_text_from_pdfs_def)
next
  assume "\<forall>f\<in>set uploaded_files. PdfReader' f = PdfReader f \<and>
        (\<forall>p\<in>set (pages_of PdfReader f). extract_text' p = extract_text p)"
  from files_loop_agree [OF this, of "[]"]
  show "extract_text_from_pdfs PdfReader' extract_text' uploaded_files =
        extract_text_from_pdfs PdfReader extract_text uploaded_files"
    by (simp add: extract_text_from_pdfs_def)
qed

theorem extract_text_from_pdfs_concat_witness:
  "readable two_files page_value [0, 1] \<and>
   extract_text_from_pdfs two_files page_value [0, 1] = Inr (ascii ''Hello World.'') \<and>
   \<not> readable two_files page_value [0, 1, 2] \<and>
   (\<exists>e. extract_text_from_pdfs two_files page_value [0, 1, 2] = Inl e) \<and>
   extract_text_from_pdfs other_files page_value [0, 1] =
     extract_text_from_pdfs two_files page_value [0, 1]"
proof -
  note t = extract_text_from_pdfs_concat [where PdfReader = two_files
      and extract_text = page_value and PdfReader' = other_files and extract_text' = page_value]
  from t [where uploaded_files = "[0, 1]"] two_files_readable other_files_agree
  have a: "extract_text_from_pdfs two_files page_value [0, 1] =
        Inr (ingest_spec two_files page_value [0, 1])"
    and c: "extract_text_from_pdfs other_files page_value [0, 1] =
     extract_text_from_pdfs two_files page_value [0, 1]"
    by blast+
  from a have a': "extract_text_from_pdfs two_files page_value [0, 1] = Inr (ascii ''Hello World.'')"
    by (simp only: ingest_spec_def two_files_text strip_example)
  from t [where uploaded_files = "[0, 1, 2]"] two_files_unreadable
  have b: "\<exists>e. extract_text_from_pdfs two_files page_value [0, 1, 2] = Inl e"
    by blast
  from two_files_readable a' two_files_unreadable b c show ?thesis
    by (intro conjI)
qed


section \<open>Properties of the report export\<close>






















section \<open>Properties of a session\<close>

lemma split_groq_70b:
  "index1 (split_sep (ascii '' - '') (ascii ''Groq - llama-3.3-70b-versatile'')) =
     Inr (ascii ''llama-3.3-70b-versatile'')"
  by code_simp

lemma split_groq_8b:
  "index1 (split_sep (ascii '' - '') (ascii ''Groq - llama-3.1-8b-instant'')) =
     Inr (ascii ''llama-3.1-8b-instant'')"
  by code_simp

lemma split_gemini_flash:
  "index1 (split_sep (ascii '' - '') (ascii ''Gemini - gemini-1.5-flash'')) =
     Inr (ascii ''gemini-1.5-flash'')"
  by code_simp

lemma split_gemini_pro:
  "index1 (split_sep (ascii '' - '') (ascii ''Gemini - gemini-1.5-pro'')) =
     Inr (ascii ''gemini-1.5-pro'')"
  by code_simp


lemma run_model_returns:
  assumes "model_choice \<in> set model_options"
  shows "\<exists>output st'. run_model env model_choice prompt st = Inr (PyStr output, st')"
proof -
  from assms consider
      "model_choice = ascii ''Groq - llama-3.3-70b-versatile''"
    | "model_choice = ascii ''Groq - llama-3.1-8b-instant''"
    | "model_choice = ascii ''Gemini - gemini-1.5-flash''"
    | "model_choice = ascii ''Gemini - gemini-1.5-pro''"
    by (auto simp: model_options_def)
  then show ?thesis
  proof cases
    case 1
    have "startswith model_choice (ascii ''Groq'')"
      unfolding 1 by (simp add: startswith_def ascii_def)
    then show ?thesis
      unfolding run_model_def 1 by (simp add: split_groq_70b split: prod.splits)
  next
    case 2
    have "startswith model_choice (ascii ''Groq'')"
      unfolding 2 by (simp add: startswith_def ascii_def)
    then show ?thesis
      unfolding run_model_def 2 by (simp add: split_groq_8b split: prod.splits)
  next
    case 3
    have "\<not> startswith model_choice (ascii ''Groq'')"
      and "startswith model_choice (ascii ''Gemini'')"
      unfolding 3 by (simp_all add: startswith_def ascii_def)
    then show ?thesis
      unfolding run_model_def 3 by (simp add: split_gemini_flash split: prod.splits)
  next
    case 4
    have "\<not> startswith model_choice (ascii ''Groq'')"
      and "startswith model_choice (ascii ''Gemini'')"
      unfolding 4 by (simp_all add: startswith_def ascii_def)
    then show ?thesis
      unfolding run_model_def 4 by (simp add: split_gemini_pro split: prod.splits)
  qed
qed

lemma ask_groq_effect:
  "snd (ask_groq env prompt model_choice st) = st \<or>
   (\<exists>h output. chat_history st = Some h \<and>
      snd (ask_groq env prompt model_choice st) =
        st\<lparr>chat_history := Some (h @ [assistant_message output])\<rparr>)"
  by (auto simp: ask_groq_def ask_groq_try_def append_assistant_def
      split: option.splits sum.splits list.splits)

lemma ask_gemini_effect:
  "snd (ask_gemini env prompt model_choice st) = st \<or>
   (\<exists>h output. chat_history st = Some h \<and>
      snd (ask_gemini env prompt model_choice st) =
        st\<lparr>chat_history := Some (h @ [assistant_message output])\<rparr>)"
  by (auto simp: ask_gemini_def ask_gemini_try_def append_assistant_def
      split: option.splits sum.splits list.splits)

lemma run_model_effect:
  assumes "run_model env model_choice prompt st = Inr (v, st')"
  shows "st' = st \<or>
   (\<exists>h output. chat_history st = Some h \<and>
      st' = st\<lparr>chat_history := Some (h @ [assistant_message output])\<rparr>)"
proof (cases "startswith model_choice (ascii ''Groq'')")
  case True
  with assms have "\<exists>m x. ask_groq env prompt m st = (x, st')"
    by (auto simp: run_model_def split: sum.splits prod.splits)
  then obtain m x where "ask_groq env prompt m st = (x, st')"
    by blast
  then have "st' = snd (ask_groq env prompt m st)"
    by simp
  then show ?thesis using ask_groq_effect [of env prompt m st] by simp
next
  case False
  show ?thesis
  proof (cases "startswith model_choice (ascii ''Gemini'')")
    case True
    with assms \<open>\<not> startswith model_choice (ascii ''Groq'')\<close>
    have "\<exists>m x. ask_gemini env prompt m st = (x, st')"
      by (auto simp: run_model_def split: sum.splits prod.splits)
    then obtain m x where "ask_gemini env prompt m st = (x, st')"
      by blast
    then have "st' = snd (ask_gemini env prompt m st)"
      by simp
    then show ?thesis using ask_gemini_effect [of env prompt m st] by simp
  next
    case False
    with assms \<open>\<not> startswith model_choice (ascii ''Groq'')\<close> show ?thesis
      by (simp add: run_model_def)
  qed
qed


lemma init_session_history:
  "history_of (init_session st) =
     (case chat_history st of None \<Rightarrow> [system_message] | Some h \<Rightarrow> h)"
  by (simp add: init_session_def history_of_def Let_def split: option.splits)

lemma init_session_qa_list:
  "qa_list (init_session st) = Some (case qa_list st of None \<Rightarrow> [] | Some q \<Rightarrow> q)"
  by (simp add: init_session_def Let_def split: option.splits)

lemma init_session_qa_len: "qa_len (init_session st) = qa_len st"
  by (simp add: qa_len_def init_session_qa_list split: option.splits)

lemma run_model_step:
  assumes "run_model env model_choice prompt st = Inr (v, st')"
  shows "\<exists>new. history_of st' = history_of st @ new \<and> length new \<le> 1 \<and>
           list_all (\<lambda>m. role m = ascii ''assistant'') new"
    and "qa_list st' = qa_list st"
  using run_model_effect [OF assms]
  by (auto simp: history_of_def assistant_message_def)

lemma generate_summary_step:
  "\<exists>new. history_of (fst (generate_summary env model_choice pdf_text st)) =
           history_of st @ new \<and> length new \<le> 1 \<and>
           list_all (\<lambda>m. role m = ascii ''assistant'') new"
  "qa_list (fst (generate_summary env model_choice pdf_text st)) = qa_list st"
proof -
  show "\<exists>new. history_of (fst (generate_summary env model_choice pdf_text st)) =
           history_of st @ new \<and> length new \<le> 1 \<and>
           list_all (\<lambda>m. role m = ascii ''assistant'') new"
  proof (cases "run_model env model_choice (summary_prompt pdf_text) st")
    case (Inl e)
    then show ?thesis by (simp add: generate_summary_def)
  next
    case (Inr r)
    obtain v st' where r: "r = (v, st')" by (cases r)
    from run_model_step(1) [OF Inr [unfolded r]] show ?thesis
      by (simp add: generate_summary_def Inr r history_of_simps)
  qed
  show "qa_list (fst (generate_summary env model_choice pdf_text st)) = qa_list st"
  proof (cases "run_model env model_choice (summary_prompt pdf_text) st")
    case (Inl e)
    then show ?thesis by (simp add: generate_summary_def)
  next
    case (Inr r)
    obtain v st' where r: "r = (v, st')" by (cases r)
    from run_model_step(2) [OF Inr [unfolded r]] show ?thesis
      by (simp add: generate_summary_def Inr r)
  qed
qed

lemma get_answer_step:
  "\<exists>new. history_of (fst (get_answer env model_choice pdf_text query st)) =
           history_of st @ new \<and> length new \<le> 1 \<and>
           list_all (\<lambda>m. role m = ascii ''assistant'') new"
proof (cases "run_model env model_choice (answer_prompt pdf_text query) st")
  case (Inl e)
  then show ?thesis by (simp add: get_answer_def)
next
  case (Inr r)
  obtain v st' where r: "r = (v, st')" by (cases r)
  from run_model_step(1) [OF Inr [unfolded r]] show ?thesis
    by (simp add: get_answer_def Inr r history_of_simps split: option.splits)
qed

lemma get_answer_raises:
  "run_model env model_choice (answer_prompt pdf_text query) st = Inl e \<Longrightarrow>
   get_answer env model_choice pdf_text query st = (st, Some e)"
  by (simp add: get_answer_def)

lemma get_answer_appends:
  assumes "run_model env model_choice (answer_prompt pdf_text query) st = Inr (answer, st')"
    and "qa_list st = Some qas"
  shows "get_answer env model_choice pdf_text query st =
           (st'\<lparr>qa_list := Some (qas @ [(query, answer)])\<rparr>, None)"
proof -
  from run_model_step(2) [OF assms(1)] assms(2) have "qa_list st' = Some qas"
    by simp
  with assms(1) show ?thesis
    by (simp add: get_answer_def)
qed

lemma download_pdf_step: "fst (download_pdf lib pdf_text st) = st"
  by (simp add: download_pdf_def Let_def split: option.splits sum.splits)

lemma script_history:
  "\<exists>new. history_of (fst (script env PdfReader extract_text lib run st)) =
           history_of (init_session st) @ new \<and> length new \<le> 1 \<and>
           list_all (\<lambda>m. role m = ascii ''assistant'') new"
proof -
  obtain model_choice uploaded_files act where run: "run = (model_choice, uploaded_files, act)"
    by (cases run)
  show ?thesis
  proof (cases "uploaded_files = []")
    case True
    then show ?thesis by (simp add: script_def run Let_def)
  next
    case False
    show ?thesis
    proof (cases "extract_text_from_pdfs PdfReader extract_text uploaded_files")
      case (Inl e)
      with False show ?thesis by (simp add: script_def run Let_def)
    next
      case (Inr pdf_text)
      show ?thesis
      proof (cases act)
        case NoAction
        with False Inr show ?thesis by (simp add: script_def run Let_def)
      next
        case GenerateSummary
        with False Inr generate_summary_step(1) [of env model_choice pdf_text "init_session st"]
        show ?thesis by (simp add: script_def run Let_def)
      next
        case (GetAnswer query)
        with False Inr get_answer_step(1) [of env model_choice pdf_text query "init_session st"]
        show ?thesis by (simp add: script_def run Let_def)
      next
        case DownloadPdf
        with False Inr show ?thesis by (simp add: script_def run Let_def download_pdf_step)
      qed
    qed
  qed
qed

lemma qas_of_simps:
  "qas_of (st\<lparr>qa_list := Some qas\<rparr>) = qas"
  "qas_of (init_session st) = qas_of st"
  "qa_list (init_session st) = Some (qas_of st)"
  "qa_len st = length (qas_of st)"
  by (simp_all add: qas_of_def qa_len_def init_session_qa_list split: option.splits)

lemma script_ask:
  assumes "uploaded_files \<noteq> []"
    and "extract_text_from_pdfs PdfReader extract_text uploaded_files = Inr pdf_text"
    and "run_model env model_choice (answer_prompt pdf_text query) (init_session st) =
           Inr (answer, st')"
  shows "script env PdfReader extract_text lib (model_choice, uploaded_files, GetAnswer query) st =
           (st'\<lparr>qa_list := Some (qas_of st @ [(query, answer)])\<rparr>, None)"
  using assms(1,2) get_answer_appends [OF assms(3) qas_of_simps(3)]
  by (simp add: script_def Let_def)

lemma ask_completed_cases:
  assumes "ask_completed env PdfReader extract_text lib
             (model_choice, uploaded_files, GetAnswer query) st"
  shows "\<exists>pdf_text answer st'. uploaded_files \<noteq> [] \<and>
           extract_text_from_pdfs PdfReader extract_text uploaded_files = Inr pdf_text \<and>
           run_model env model_choice (answer_prompt pdf_text query) (init_session st) =
             Inr (answer, st')"
proof -
  from assms have f: "uploaded_files \<noteq> []"
    and n: "snd (script env PdfReader extract_text lib
                   (model_choice, uploaded_files, GetAnswer query) st) = None"
    by (simp_all add: ask_completed_def)
  from f n obtain pdf_text where
    e: "extract_text_from_pdfs PdfReader extract_text uploaded_files = Inr pdf_text"
    by (cases "extract_text_from_pdfs PdfReader extract_text uploaded_files")
      (simp_all add: script_def Let_def)
  from f n e have g: "snd (get_answer env model_choice pdf_text query (init_session st)) = None"
    by (simp add: script_def Let_def)
  then obtain r where
    "run_model env model_choice (answer_prompt pdf_text query) (init_session st) = Inr r"
    by (cases "run_model env model_choice (answer_prompt pdf_text query) (init_session st)")
      (simp_all add: get_answer_raises)
  with f e show ?thesis
    by (cases r) auto
qed

lemma script_qas:
  "\<exists>new. qas_of (fst (script env PdfReader extract_text lib run st)) = qas_of st @ new \<and>
         length new = (if ask_completed env PdfReader extract_text lib run st then 1 else 0)"
proof -
  obtain model_choice uploaded_files act where run: "run = (model_choice, uploaded_files, act)"
    by (cases run)
  show ?thesis
  proof (cases "uploaded_files = []")
    case True
    then show ?thesis
      by (simp add: script_def ask_completed_def run Let_def qas_of_simps)
  next
    case False
    show ?thesis
    proof (cases "extract_text_from_pdfs PdfReader extract_text uploaded_files")
      case (Inl e)
      with False show ?thesis
        by (simp add: script_def ask_completed_def run Let_def qas_of_simps)
    next
      case (Inr pdf_text)
      show ?thesis
      proof (cases act)
        case NoAction
        with False Inr show ?thesis
          by (simp add: script_def ask_completed_def run Let_def qas_of_simps)
      next
        case GenerateSummary
        with False Inr generate_summary_step(2) [of env model_choice pdf_text "init_session st"]
        show ?thesis
          by (simp add: script_def ask_completed_def run Let_def qas_of_def
              init_session_qa_list)
      next
        case (GetAnswer query)
        show ?thesis
        proof (cases "run_model env model_choice (answer_prompt pdf_text query) (init_session st)")
          case (Inl e)
          with False Inr GetAnswer show ?thesis
            by (simp add: script_def ask_completed_def run Let_def get_answer_raises
                qas_of_simps)
        next
          case r: (Inr r)
          obtain answer st' where "r = (answer, st')" by (cases r)
          with r have "run_model env model_choice (answer_prompt pdf_text query)
              (init_session st) = Inr (answer, st')"
            by simp
          from script_ask [OF False Inr this, of lib] GetAnswer show ?thesis
            by (simp add: run ask_completed_def False qas_of_simps)
        qed
      next
        case DownloadPdf
        with False Inr show ?thesis
          by (simp add: script_def ask_completed_def run Let_def download_pdf_step
              qas_of_simps)
      qed
    qed
  qed
qed

lemma script_qa_len:
  "qa_len (fst (script env PdfReader extract_text lib run st)) =
     qa_len st + (if ask_completed env PdfReader extract_text lib run st then 1 else 0)"
  using script_qas [of env PdfReader extract_text lib run st]
  by (auto simp: qas_of_simps(4))

lemma session_qas:
  "\<exists>new. qas_of (session env PdfReader extract_text lib runs st) = qas_of st @ new \<and>
         length new = asks_completed env PdfReader extract_text lib runs st"
proof (induction runs arbitrary: st)
  case Nil
  show ?case by simp
next
  case (Cons run runs)
  let ?st = "fst (script env PdfReader extract_text lib run st)"
  from script_qas [of env PdfReader extract_text lib run st] obtain new where
    n: "qas_of ?st = qas_of st @ new"
    and l: "length new = (if ask_completed env PdfReader extract_text lib run st then 1 else 0)"
    by blast
  from Cons.IH [of ?st] obtain new' where
    n': "qas_of (session env PdfReader extract_text lib runs ?st) = qas_of ?st @ new'"
    and l': "length new' = asks_completed env PdfReader extract_text lib runs ?st"
    by blast
  from n n' l l' show ?case
    by (intro exI [of _ "new @ new'"]) simp
qed

lemma session_invariant:
  assumes "chat_history st = Some (system_message # rest)"
    and "list_all (\<lambda>m. role m = ascii ''assistant'') rest"
  shows "\<exists>rest'. history_of (session env PdfReader extract_text lib runs st) =
           system_message # rest @ rest' \<and>
           list_all (\<lambda>m. role m = ascii ''assistant'') rest'"
  using assms
proof (induction runs arbitrary: st rest)
  case Nil
  then show ?case by (simp add: history_of_def)
next
  case (Cons run runs)
  let ?st = "fst (script env PdfReader extract_text lib run st)"
  from script_history [of env PdfReader extract_text lib run st]
  obtain new where new: "history_of ?st = history_of (init_session st) @ new"
    and a: "list_all (\<lambda>m. role m = ascii ''assistant'') new"
    by blast
  from Cons.prems(1) have "history_of (init_session st) = system_message # rest"
    by (simp add: init_session_history)
  with new have h: "history_of ?st = system_message # (rest @ new)"
    by simp
  have c: "chat_history ?st = Some (system_message # (rest @ new))"
    using h by (simp add: history_of_def split: option.splits)
  from Cons.prems(2) a have "list_all (\<lambda>m. role m = ascii ''assistant'') (rest @ new)"
    by simp
  from Cons.IH [OF c this] obtain rest' where
    "history_of (session env PdfReader extract_text lib runs ?st) =
       system_message # (rest @ new) @ rest'"
    and "list_all (\<lambda>m. role m = ascii ''assistant'') rest'"
    by blast
  with a show ?case
    by (intro exI [of _ "new @ rest'"]) simp
qed

lemma session_qa_len:
  "qa_len (session env PdfReader extract_text lib runs st) =
     qa_len st + asks_completed env PdfReader extract_text lib runs st"
  using session_qas [of env PdfReader extract_text lib runs st]
  by (auto simp: qas_of_simps(4))

lemma roles_differ:
  "ascii ''assistant'' \<noteq> ascii ''system''"
  "ascii ''assistant'' \<noteq> ascii ''user''"
  "ascii ''system'' \<noteq> ascii ''user''"
  by (simp_all add: ascii_def)

lemma init_session_started: "init_session started = started"
  by (simp add: started_def init_session_def empty_session_def)

lemma started_qa_len: "qa_len started = 0"
  by (simp add: started_def init_session_def empty_session_def qa_len_def)

lemma ask_completes:
  assumes "model_choice \<in> set model_options"
    and "uploaded_files \<noteq> []"
    and "readable PdfReader extract_text uploaded_files"
  shows "ask_completed env PdfReader extract_text lib
           (model_choice, uploaded_files, GetAnswer query) st"
proof -
  let ?pdf_text = "ingest_spec PdfReader extract_text uploaded_files"
  from run_model_returns [OF assms(1)] obtain out st' where
    r: "run_model env model_choice (answer_prompt ?pdf_text query) (init_session st) =
          Inr (PyStr out, st')"
    by blast
  from run_model_step(2) [OF r] have "qa_list st' \<noteq> None"
    by (simp add: init_session_qa_list)
  then have "snd (get_answer env model_choice ?pdf_text query (init_session st)) = None"
    by (auto simp: get_answer_def r)
  with assms(2) show ?thesis
    by (simp add: ask_completed_def script_def Let_def extract_text_readable [OF assms(3)])
qed

lemma failing_ask_example:
  "qa_list (fst (script failing two_files page_value lenient
       (ascii ''Groq - llama-3.3-70b-versatile'', [0, 1], GetAnswer (ascii ''Why?'')) started)) =
     Some [(ascii ''Why?'', PyStr (groq_tag @ ascii ''timeout''))]"
proof -
  have e: "extract_text_from_pdfs two_files page_value [0, 1] = Inr (ascii ''Hello World.'')"
    using extract_text_readable [OF two_files_readable]
    by (simp only: ingest_spec_def two_files_text strip_example)
  have s: "startswith (ascii ''Groq - llama-3.3-70b-versatile'') (ascii ''Groq'')"
    by (simp add: startswith_def ascii_def)
  have a: "ask_groq failing prompt model_choice started = (groq_tag @ ascii ''timeout'', started)"
    for prompt model_choice
    by (simp add: ask_groq_def failing_groq_try)
  have r: "run_model failing (ascii ''Groq - llama-3.3-70b-versatile'') prompt started =
      Inr (PyStr (groq_tag @ ascii ''timeout''), started)" for prompt
    by (simp add: run_model_def s split_groq_70b a)
  have q: "qa_list started = Some []"
    by (simp add: started_def init_session_def empty_session_def)
  show ?thesis
    by (simp add: script_def Let_def init_session_started e [unfolded One_nat_def]
        get_answer_def r q)
qed

text \<open>
  C7. A session starts with the message sequence holding exactly the system message. After
  any runs of the script it still begins with that message and holds no other system
  message. One run, from a state whose sequence is set, leaves the old sequence as a prefix
  and adds at most one message, so nothing is removed, edited or reordered. The append of
  an assistant message makes the sequence one longer and leaves the earlier entries as
  they were.
\<close>

theorem history_keeps_one_system_message:
  "history_of started = [system_message] \<and>
   (\<exists>rest. history_of (session env PdfReader extract_text lib runs started) =
             system_message # rest \<and>
           list_all (\<lambda>m. role m \<noteq> ascii ''system'') rest) \<and>
   (\<forall>h. chat_history st = Some h \<longrightarrow>
      (\<exists>new. history_of (fst (script env PdfReader extract_text lib run st)) = h @ new \<and>
             length new \<le> 1)) \<and>
   (\<forall>h st'. chat_history st = Some h \<longrightarrow> append_assistant reply st = Inr st' \<longrightarrow>
      history_of st' = h @ [assistant_message reply] \<and>
      length (history_of st') = length h + 1 \<and>
      take (length h) (history_of st') = h)"
proof (intro conjI allI impI)
  show "history_of started = [system_message]"
    by (simp add: history_of_def started_history)
next
  from session_invariant [OF started_history, of env PdfReader extract_text lib runs]
  obtain rest where r: "history_of (session env PdfReader extract_text lib runs started) =
      system_message # rest"
    and a: "list_all (\<lambda>m. role m = ascii ''assistant'') rest"
    by auto
  from a have "list_all (\<lambda>m. role m \<noteq> ascii ''system'') rest"
    by (induction rest) (simp_all add: roles_differ)
  with r show "\<exists>rest. history_of (session env PdfReader extract_text lib runs started) =
             system_message # rest \<and>
           list_all (\<lambda>m. role m \<noteq> ascii ''system'') rest"
    by blast
next
  fix h
  assume "chat_history st = Some h"
  then have "history_of (init_session st) = h"
    by (simp add: init_session_history)
  with script_history [of env PdfReader extract_text lib run st]
  show "\<exists>new. history_of (fst (script env PdfReader extract_text lib run st)) = h @ new \<and>
             length new \<le> 1"
    by auto
next
  fix h st'
  assume "chat_history st = Some h" and "append_assistant reply st = Inr st'"
  then have "history_of st' = h @ [assistant_message reply]"
    by (auto simp: append_assistant_def history_of_def)
  then show "history_of st' = h @ [assistant_message reply]"
    and "length (history_of st') = length h + 1"
    and "take (length h) (history_of st') = h"
    by simp_all
qed

theorem history_keeps_one_system_message_witness:
  "chat_history started = Some [system_message] \<and>
   append_assistant (ascii ''A brief greeting.'') started =
     Inr (started\<lparr>chat_history :=
            Some [system_message, assistant_message (ascii ''A brief greeting.'')]\<rparr>) \<and>
   history_of (started\<lparr>chat_history :=
       Some [system_message, assistant_message (ascii ''A brief greeting.'')]\<rparr>) =
     [system_message] @ [assistant_message (ascii ''A brief greeting.'')] \<and>
   (\<exists>new. history_of (fst (script answering two_files page_value lenient
              (ascii ''Groq - llama-3.3-70b-versatile'', [0, 1], GetAnswer (ascii ''Why?''))
              started)) = [system_message] @ new \<and> length new \<le> 1)"
proof -
  have a: "append_assistant (ascii ''A brief greeting.'') started =
     Inr (started\<lparr>chat_history :=
            Some [system_message, assistant_message (ascii ''A brief greeting.'')]\<rparr>)"
    by (simp add: append_assistant_def started_history)
  from history_keeps_one_system_message [where st = started and env = answering
      and PdfReader = two_files and extract_text = page_value and lib = lenient
      and runs = "[]" and reply = "ascii ''A brief greeting.''"
      and run = "(ascii ''Groq - llama-3.3-70b-versatile'', [0, 1], GetAnswer (ascii ''Why?''))"]
    started_history a
  show ?thesis by simp
qed

text \<open>
  C8. The pair sequence is append-only: after any runs of the script it is the sequence of
  the start followed by as many new pairs as ask interactions were completed, and one run
  leaves the old sequence as a prefix and adds one pair when it completes an ask and none
  otherwise; so the length never decreases. A completed ask appends exactly the pair of its
  question and of the answer that \<open>run_model\<close> returned. An ask with one of the four
  selectable models and with readable uploaded files is completed, whatever the providers
  do: when the provider fails, the pair holds the error string as its answer.
\<close>

theorem qa_list_grows_by_one_per_ask:
  "(\<exists>new. qas_of (session env PdfReader extract_text lib runs st) = qas_of st @ new \<and>
          length new = asks_completed env PdfReader extract_text lib runs st) \<and>
   qa_len (session env PdfReader extract_text lib runs st) =
     qa_len st + asks_completed env PdfReader extract_text lib runs st \<and>
   (\<exists>new. qas_of (fst (script env PdfReader extract_text lib run st)) = qas_of st @ new \<and>
          length new = (if ask_completed env PdfReader extract_text lib run st then 1 else 0)) \<and>
   qa_len st \<le> qa_len (fst (script env PdfReader extract_text lib run st)) \<and>
   (ask_completed env PdfReader extract_text lib (model_choice, uploaded_files, GetAnswer query) st \<longrightarrow>
      (\<exists>pdf_text answer st'.
         extract_text_from_pdfs PdfReader extract_text uploaded_files = Inr pdf_text \<and>
         run_model env model_choice (answer_prompt pdf_text query) (init_session st) =
           Inr (answer, st') \<and>
         qa_list (fst (script env PdfReader extract_text lib
                         (model_choice, uploaded_files, GetAnswer query) st)) =
           Some (qas_of st @ [(query, answer)]))) \<and>
   (model_choice \<in> set model_options \<longrightarrow> uploaded_files \<noteq> [] \<longrightarrow>
    readable PdfReader extract_text uploaded_files \<longrightarrow>
      ask_completed env PdfReader extract_text lib
        (model_choice, uploaded_files, GetAnswer query) st \<and>
      qa_len (fst (script env PdfReader extract_text lib
        (model_choice, uploaded_files, GetAnswer query) st)) = qa_len st + 1)"
proof (intro conjI impI)
  show "\<exists>new. qas_of (session env PdfReader extract_text lib runs st) = qas_of st @ new \<and>
          length new = asks_completed env PdfReader extract_text lib runs st"
    by (rule session_qas)
next
  show "qa_len (session env PdfReader extract_text lib runs st) =
     qa_len st + asks_completed env PdfReader extract_text lib runs st"
    by (rule session_qa_len)
next
  show "\<exists>new. qas_of (fst (script env PdfReader extract_text lib run st)) = qas_of st @ new \<and>
          length new = (if ask_completed env PdfReader extract_text lib run st then 1 else 0)"
    by (rule script_qas)
next
  show "qa_len st \<le> qa_len (fst (script env PdfReader extract_text lib run st))"
    by (simp add: script_qa_len)
next
  assume "ask_completed env PdfReader extract_text lib
            (model_choice, uploaded_files, GetAnswer query) st"
  from ask_completed_cases [OF this] obtain pdf_text answer st' where f: "uploaded_files \<noteq> []"
    and e: "extract_text_from_pdfs PdfReader extract_text uploaded_files = Inr pdf_text"
    and r: "run_model env model_choice (answer_prompt pdf_text query) (init_session st) =
             Inr (answer, st')"
    by blast
  from script_ask [OF f e r, of lib]
  have "qa_list (fst (script env PdfReader extract_text lib
                         (model_choice, uploaded_files, GetAnswer query) st)) =
           Some (qas_of st @ [(query, answer)])"
    by simp
  with e r show "\<exists>pdf_text answer st'.
         extract_text_from_pdfs PdfReader extract_text uploaded_files = Inr pdf_text \<and>
         run_model env model_choice (answer_prompt pdf_text query) (init_session st) =
           Inr (answer, st') \<and>
         qa_list (fst (script env PdfReader extract_text lib
                         (model_choice, uploaded_files, GetAnswer query) st)) =
           Some (qas_of st @ [(query, answer)])"
    by blast
next
  assume a: "model_choice \<in> set model_options" "uploaded_files \<noteq> []"
    "readable PdfReader extract_text uploaded_files"
  then show c: "ask_completed env PdfReader extract_text lib
        (model_choice, uploaded_files, GetAnswer query) st"
    by (rule ask_completes)
  then show "qa_len (fst (script env PdfReader extract_text lib
        (model_choice, uploaded_files, GetAnswer query) st)) = qa_len st + 1"
    by (simp add: script_qa_len)
qed

theorem qa_list_grows_by_one_per_ask_witness:
  "ascii ''Groq - llama-3.3-70b-versatile'' \<in> set model_options \<and>
   [0, 1] \<noteq> ([] :: nat list) \<and>
   readable two_files page_value [0, 1] \<and>
   ask_completed failing two_files page_value lenient
     (ascii ''Groq - llama-3.3-70b-versatile'', [0, 1], GetAnswer (ascii ''Why?'')) started \<and>
   qa_len (fst (script failing two_files page_value lenient
     (ascii ''Groq - llama-3.3-70b-versatile'', [0, 1], GetAnswer (ascii ''Why?'')) started)) = 1 \<and>
   qas_of started = [] \<and>
   qa_list (fst (script failing two_files page_value lenient
     (ascii ''Groq - llama-3.3-70b-versatile'', [0, 1], GetAnswer (ascii ''Why?'')) started)) =
     Some ([] @ [(ascii ''Why?'', PyStr (groq_tag @ ascii ''timeout''))])"
proof -
  have m: "ascii ''Groq - llama-3.3-70b-versatile'' \<in> set model_options"
    by (simp add: model_options_def)
  have q: "qas_of started = []"
    by (simp add: qas_of_def started_def init_session_def empty_session_def)
  note t = qa_list_grows_by_one_per_ask [where env = failing and PdfReader = two_files
      and extract_text = page_value and lib = lenient and st = started
      and model_choice = "ascii ''Groq - llama-3.3-70b-versatile''"
      and uploaded_files = "[0, 1]" and query = "ascii ''Why?''" and runs = "[]"
      and run = "(ascii ''Groq - llama-3.3-70b-versatile'', [0, 1], NoAction)"]
  from t m two_files_readable
  have c: "ask_completed failing two_files page_value lenient
     (ascii ''Groq - llama-3.3-70b-versatile'', [0, 1], GetAnswer (ascii ''Why?'')) started"
    and l: "qa_len (fst (script failing two_files page_value lenient
     (ascii ''Groq - llama-3.3-70b-versatile'', [0, 1], GetAnswer (ascii ''Why?'')) started)) =
       qa_len started + 1"
    by simp_all
  from l have l': "qa_len (fst (script failing two_files page_value lenient
     (ascii ''Groq - llama-3.3-70b-versatile'', [0, 1], GetAnswer (ascii ''Why?'')) started)) = 1"
    by (simp add: started_qa_len)
  have n: "[0, 1] \<noteq> ([] :: nat list)"
    by simp
  from m n two_files_readable c l' q failing_ask_example show ?thesis
    by simp
qed

text \<open>
  C10. After any runs of the script the stored sequence is the system message followed by
  assistant messages only, and no stored message has the user role: the user message with
  the prompt exists only as the last entry of the request built for Groq.
\<close>

theorem only_assistant_messages_stored:
  "(\<exists>rest. history_of (session env PdfReader extract_text lib runs started) =
             system_message # rest \<and>
           list_all (\<lambda>m. role m = ascii ''assistant'') rest) \<and>
   list_all (\<lambda>m. role m \<noteq> ascii ''user'')
     (history_of (session env PdfReader extract_text lib runs started)) \<and>
   messages (groq_request prompt model_choice h) = h @ [user_message prompt]"
proof -
  from session_invariant [OF started_history, of env PdfReader extract_text lib runs]
  obtain rest where r: "history_of (session env PdfReader extract_text lib runs started) =
      system_message # rest"
    and a: "list_all (\<lambda>m. role m = ascii ''assistant'') rest"
    by auto
  from a have "list_all (\<lambda>m. role m \<noteq> ascii ''user'') rest"
    by (induction rest) (simp_all add: roles_differ)
  with r a show ?thesis
    by (simp add: groq_request_def system_message_def roles_differ)
qed

end
